theory Spec2Isabelle
  imports Main
begin

section \<open>Strings\<close>

text \<open>
  A Python \<open>str\<close> is a sequence of Unicode code points, and \<open>len\<close> counts code points.
  The names the registration form receives are not ASCII (the documented example is
  a Korean name), so a string is a list of code points, not of 8-bit characters.
\<close>

type_synonym str = "nat list"

definition ascii :: "string \<Rightarrow> str" where
  "ascii s = map of_char s"

definition hyphen :: nat where
  "hyphen = 45"

text \<open>
  \<open>s.replace(old, new)\<close>: every non-overlapping occurrence of \<open>old\<close> in \<open>s\<close>, found from
  the left, becomes \<open>new\<close>. For the empty \<open>old\<close> Python puts \<open>new\<close> before every character
  and at the end.
\<close>

function str_replace :: "str \<Rightarrow> str \<Rightarrow> str \<Rightarrow> str" where
  "str_replace s old new =
     (if old = [] then new @ concat (map (\<lambda>c. c # new) s)
      else if s = [] then []
      else if take (length old) s = old
        then new @ str_replace (drop (length old) s) old new
      else hd s # str_replace (tl s) old new)"
  by pat_completeness auto
termination
  by (relation "measure (\<lambda>(s, old, new). length s)") auto

section \<open>The phone number pattern\<close>

text \<open>
  \<open>PHONE_NUMBER_REGEX = r"^\d{2,4}-?\d{3,4}-?\d{4}$"\<close>.
  The pattern is a sequence of items: the two anchors and bounded repetitions of a
  character class (\<open>c?\<close> is \<open>c{0,1}\<close>, \<open>c{4}\<close> is \<open>c{4,4}\<close>).
\<close>

datatype cclass = Digit | Lit nat

datatype item = Bol | Eol | Rep cclass nat nat

type_synonym regex = "item list"

definition PHONE_NUMBER_REGEX :: regex where
  "PHONE_NUMBER_REGEX =
     [Bol, Rep Digit 2 4, Rep (Lit hyphen) 0 1, Rep Digit 3 4, Rep (Lit hyphen) 0 1,
      Rep Digit 4 4, Eol]"

text \<open>
  A \<open>str\<close> may hold lone surrogates (code points U+D800 to U+DFFF). Such a string is
  not valid Unicode, and the validation library refuses it before any other check.
\<close>

definition is_surrogate :: "nat \<Rightarrow> bool" where
  "is_surrogate c \<longleftrightarrow> 55296 \<le> c \<and> c \<le> 57343"

definition has_surrogate :: "str \<Rightarrow> bool" where
  "has_surrogate s = list_ex is_surrogate s"

text \<open>
  On a \<open>str\<close>, \<open>\d\<close> is any character of Unicode's general category Nd (decimal digit),
  not only \<open>0\<close> to \<open>9\<close>. Below 128 the decimal digits are \<open>0\<close> to \<open>9\<close> in every version
  of Unicode, and a surrogate is never one. Which other characters are decimal digits
  depends on the version of Unicode the pattern engine was built with: that set is the
  parameter \<open>nd\<close> of the matcher, and of everything that uses it.
\<close>

definition is_digit :: "(nat \<Rightarrow> bool) \<Rightarrow> nat \<Rightarrow> bool" where
  "is_digit nd c =
     (if c < 128 then 48 \<le> c \<and> c \<le> 57
      else if is_surrogate c then False
      else nd c)"

text \<open>The set with no decimal digit above 127, for the concrete examples.\<close>

definition no_other_digits :: "nat \<Rightarrow> bool" where
  "no_other_digits c = False"

fun in_class :: "(nat \<Rightarrow> bool) \<Rightarrow> cclass \<Rightarrow> nat \<Rightarrow> bool" where
  "in_class nd Digit c = is_digit nd c"
| "in_class nd (Lit k) c = (c = k)"

text \<open>
  The matcher walks the input with a state: the number of characters before the current
  position and the characters from it on. An item maps a state to the states it can leave
  the matcher in, the longest repetition first. \<open>^\<close> holds at position 0 only and \<open>$\<close> at
  the end of the input only (the pattern engine of the validation library does not let
  \<open>$\<close> match before a final newline).
\<close>

fun item_steps :: "(nat \<Rightarrow> bool) \<Rightarrow> item \<Rightarrow> nat \<times> str \<Rightarrow> (nat \<times> str) list" where
  "item_steps nd Bol (i, s) = (if i = 0 then [(i, s)] else [])"
| "item_steps nd Eol (i, s) = (if s = [] then [(i, s)] else [])"
| "item_steps nd (Rep c m n) (i, s) =
     map (\<lambda>k. (i + k, drop k s))
       (filter (\<lambda>k. k \<le> length s \<and> list_all (in_class nd c) (take k s)) (rev [m..<Suc n]))"

fun regex_steps :: "(nat \<Rightarrow> bool) \<Rightarrow> regex \<Rightarrow> nat \<times> str \<Rightarrow> (nat \<times> str) list" where
  "regex_steps nd [] st = [st]"
| "regex_steps nd (r # rs) st = concat (map (regex_steps nd rs) (item_steps nd r st))"

text \<open>The pattern constraint is a search: a match may start at any position.\<close>

definition is_match :: "(nat \<Rightarrow> bool) \<Rightarrow> regex \<Rightarrow> str \<Rightarrow> bool" where
  "is_match nd r s = list_ex (\<lambda>i. regex_steps nd r (i, drop i s) \<noteq> []) [0..<Suc (length s)]"

text \<open>
  The pattern in the words of the specification: a group of 2 to 4 digits, a group of 3 or
  4 digits and a group of 4 digits, with an optional hyphen after the first and after the
  second group. It is compared with the matcher below.
\<close>

definition phone_shape :: "(nat \<Rightarrow> bool) \<Rightarrow> str \<Rightarrow> bool" where
  "phone_shape nd s \<longleftrightarrow>
     (\<exists>a h1 b h2 c. s = a @ h1 @ b @ h2 @ c
        \<and> list_all (is_digit nd) a \<and> 2 \<le> length a \<and> length a \<le> 4
        \<and> (h1 = [] \<or> h1 = [hyphen])
        \<and> list_all (is_digit nd) b \<and> 3 \<le> length b \<and> length b \<le> 4
        \<and> (h2 = [] \<or> h2 = [hyphen])
        \<and> list_all (is_digit nd) c \<and> length c = 4)"

section \<open>The model \<open>UserCreate\<close>\<close>

datatype error_type =
  string_unicode | string_pattern_mismatch | string_too_short | string_too_long

text \<open>
  One entry of \<open>ValidationError.errors()\<close>: the location (the field's name), the type of
  the error and its context. The context of a length error holds the bound; that of a
  pattern mismatch holds the pattern, which no code of the program reads, so it is left
  out of the model. An error for invalid Unicode has no context.
\<close>

record error_details =
  loc :: "string list"
  type :: error_type
  ctx :: "(string \<times> nat) list"

record UserCreate =
  phone_number :: str
  name :: str

definition standardize_phone_number :: "str \<Rightarrow> str" where
  "standardize_phone_number v = str_replace v [hyphen] []"

text \<open>
  Field \<open>phone_number\<close>: a string that is not valid Unicode is refused first; then the
  pattern is checked on the submitted string; the \<open>field_validator\<close> (mode "after")
  runs only on a string that passed.
\<close>

definition validate_phone_number :: "(nat \<Rightarrow> bool) \<Rightarrow> str \<Rightarrow> error_details list + str" where
  "validate_phone_number nd v =
     (if has_surrogate v
        then Inl [\<lparr>loc = [''phone_number''], type = string_unicode, ctx = []\<rparr>]
      else if is_match nd PHONE_NUMBER_REGEX v then Inr (standardize_phone_number v)
      else Inl [\<lparr>loc = [''phone_number''], type = string_pattern_mismatch, ctx = []\<rparr>])"

text \<open>
  Field \<open>name\<close>: a string that is not valid Unicode is refused first; then
  \<open>min_length=2, max_length=50\<close>, on the string as submitted.
\<close>

definition validate_name :: "str \<Rightarrow> error_details list + str" where
  "validate_name v =
     (if has_surrogate v
        then Inl [\<lparr>loc = [''name''], type = string_unicode, ctx = []\<rparr>]
      else if length v < 2
        then Inl [\<lparr>loc = [''name''], type = string_too_short, ctx = [(''min_length'', 2)]\<rparr>]
      else if length v > 50
        then Inl [\<lparr>loc = [''name''], type = string_too_long, ctx = [(''max_length'', 50)]\<rparr>]
      else Inr v)"

fun errors_of :: "error_details list + 'a \<Rightarrow> error_details list" where
  "errors_of (Inl es) = es"
| "errors_of (Inr _) = []"

text \<open>
  \<open>UserCreate(phone_number=..., name=...)\<close>: every field is validated, in the order of
  declaration; the errors of all fields are collected in that order and raised together
  as one \<open>ValidationError\<close>.
\<close>

definition UserCreate_init ::
  "(nat \<Rightarrow> bool) \<Rightarrow> str \<Rightarrow> str \<Rightarrow> error_details list + UserCreate" where
  "UserCreate_init nd p n =
     (case (validate_phone_number nd p, validate_name n) of
        (Inr p', Inr n') \<Rightarrow> Inr \<lparr>phone_number = p', name = n'\<rparr>
      | (rp, rn) \<Rightarrow> Inl (errors_of rp @ errors_of rn))"

section \<open>The form handler\<close>

text \<open>
  The messages of \<open>handle_registration_form\<close>, in the order of the source: the phone
  number's format is wrong; the name needs at least so many characters; check the name;
  check the input.
\<close>

datatype error_message =
  Phone_number_format
  | Name_min_length nat
  | Name_check
  | Input_check

datatype response =
  Redirect_303 str str
  | Template_422 error_message str str
  | Index_error

definition get_default :: "('k \<times> 'v) list \<Rightarrow> 'k \<Rightarrow> 'v \<Rightarrow> 'v" where
  "get_default d k v = (case map_of d k of Some x \<Rightarrow> x | None \<Rightarrow> v)"

definition error_message_of :: "error_details \<Rightarrow> error_message option" where
  "error_message_of e =
     (case loc e of
        [] \<Rightarrow> None
      | field # _ \<Rightarrow>
          Some (if field = ''phone_number'' then Phone_number_format
                else if field = ''name'' then
                  (if type e = string_too_short
                     then Name_min_length (get_default (ctx e) ''min_length'' 2)
                   else Name_check)
                else Input_check))"

definition handle_registration_form :: "(nat \<Rightarrow> bool) \<Rightarrow> str \<Rightarrow> str \<Rightarrow> response" where
  "handle_registration_form nd p n =
     (case UserCreate_init nd p n of
        Inr user_data \<Rightarrow> Redirect_303 (name user_data) (phone_number user_data)
      | Inl [] \<Rightarrow> Index_error
      | Inl (error_details # _) \<Rightarrow>
          (case error_message_of error_details of
             None \<Rightarrow> Index_error
           | Some error_message \<Rightarrow> Template_422 error_message p n))"

section \<open>Replacing and matching\<close>

lemma str_replace_single: "str_replace s [h] [] = filter (\<lambda>c. c \<noteq> h) s"
proof (induction s)
  case Nil
  show ?case by simp
next
  case (Cons c cs)
  show ?case
  proof (cases "c = h")
    case True
    have "str_replace (c # cs) [h] [] = str_replace cs [h] []"
      by (subst str_replace.simps) (simp add: True)
    with Cons True show ?thesis by simp
  next
    case False
    have "str_replace (c # cs) [h] [] = c # str_replace cs [h] []"
      by (subst str_replace.simps) (simp add: False)
    with Cons False show ?thesis by simp
  qed
qed

lemma not_digit_45: "\<not> is_digit nd 45"
  by (simp add: is_digit_def)

lemma not_digit_hyphen: "\<not> is_digit nd hyphen"
  by (simp add: hyphen_def not_digit_45)

lemma ascii_digit: "48 \<le> c \<Longrightarrow> c \<le> 57 \<Longrightarrow> is_digit nd c"
  by (simp add: is_digit_def)

lemma item_steps_Rep_iff:
  "(j, t) \<in> set (item_steps nd (Rep c m n) (i, s)) \<longleftrightarrow>
     (\<exists>u. s = u @ t \<and> m \<le> length u \<and> length u \<le> n \<and> list_all (in_class nd c) u \<and> j = i + length u)"
proof
  assume "(j, t) \<in> set (item_steps nd (Rep c m n) (i, s))"
  then obtain k where k: "m \<le> k" "k \<le> n" "k \<le> length s" "list_all (in_class nd c) (take k s)"
      "j = i + k" "t = drop k s"
    by auto
  then have "s = take k s @ t \<and> m \<le> length (take k s) \<and> length (take k s) \<le> n
      \<and> list_all (in_class nd c) (take k s) \<and> j = i + length (take k s)"
    by simp
  then show "\<exists>u. s = u @ t \<and> m \<le> length u \<and> length u \<le> n \<and> list_all (in_class nd c) u \<and> j = i + length u"
    by blast
next
  assume "\<exists>u. s = u @ t \<and> m \<le> length u \<and> length u \<le> n \<and> list_all (in_class nd c) u \<and> j = i + length u"
  then obtain u where u: "s = u @ t" "m \<le> length u" "length u \<le> n" "list_all (in_class nd c) u"
      "j = i + length u"
    by blast
  then have "length u \<in> set (rev [m..<Suc n])" "length u \<le> length s"
      "list_all (in_class nd c) (take (length u) s)" "t = drop (length u) s"
    by auto
  with u(5) show "(j, t) \<in> set (item_steps nd (Rep c m n) (i, s))"
    by (simp add: image_iff) blast
qed

lemma standardize_filter: "standardize_phone_number s = filter (\<lambda>c. c \<noteq> hyphen) s"
  by (simp only: standardize_phone_number_def str_replace_single)

lemma ascii_01012345678:
  "ascii ''01012345678'' = [48, 49, 48, 49, 50, 51, 52, 53, 54, 55, 56]"
  by (simp add: ascii_def)

lemma regex_steps_Cons_iff:
  "st' \<in> set (regex_steps nd (r # rs) st) \<longleftrightarrow>
     (\<exists>mid \<in> set (item_steps nd r st). st' \<in> set (regex_steps nd rs mid))"
  by simp

lemma opt_lit_iff:
  "length u \<le> 1 \<and> list_all (in_class nd (Lit k)) u \<longleftrightarrow> u = [] \<or> u = [k]"
  by (cases u) auto

lemma is_match_iff_start:
  "is_match nd (Bol # rs) s \<longleftrightarrow> regex_steps nd rs (0, s) \<noteq> []"
proof -
  have "is_match nd (Bol # rs) s \<longleftrightarrow> (\<exists>i \<le> length s. regex_steps nd (Bol # rs) (i, drop i s) \<noteq> [])"
    by (auto simp: is_match_def list_ex_iff less_Suc_eq_le)
  also have "\<dots> \<longleftrightarrow> regex_steps nd rs (0, s) \<noteq> []"
    by (auto split: if_splits)
  finally show ?thesis .
qed

lemma steps_Rep:
  "st' \<in> set (regex_steps nd (Rep c m n # rs) (i, s)) \<longleftrightarrow>
     (\<exists>u t. s = u @ t \<and> m \<le> length u \<and> length u \<le> n \<and> list_all (in_class nd c) u
        \<and> st' \<in> set (regex_steps nd rs (i + length u, t)))"
proof -
  have "st' \<in> set (regex_steps nd (Rep c m n # rs) (i, s)) \<longleftrightarrow>
      (\<exists>j t. (j, t) \<in> set (item_steps nd (Rep c m n) (i, s)) \<and> st' \<in> set (regex_steps nd rs (j, t)))"
    unfolding regex_steps_Cons_iff by auto
  also have "\<dots> \<longleftrightarrow> (\<exists>u t. s = u @ t \<and> m \<le> length u \<and> length u \<le> n \<and> list_all (in_class nd c) u
        \<and> st' \<in> set (regex_steps nd rs (i + length u, t)))"
    unfolding item_steps_Rep_iff by blast
  finally show ?thesis .
qed

lemma steps_Eol: "st' \<in> set (regex_steps nd [Eol] (i, s)) \<longleftrightarrow> s = [] \<and> st' = (i, [])"
  by auto

lemma phone_steps_shape:
  assumes "st' \<in> set (regex_steps nd [Rep Digit 2 4, Rep (Lit hyphen) 0 1, Rep Digit 3 4,
       Rep (Lit hyphen) 0 1, Rep Digit 4 4, Eol] (0, s))"
  shows "phone_shape nd s"
proof -
  from assms obtain a t1 where a: "s = a @ t1" "2 \<le> length a" "length a \<le> 4"
      "list_all (in_class nd Digit) a"
      and 1: "st' \<in> set (regex_steps nd [Rep (Lit hyphen) 0 1, Rep Digit 3 4,
       Rep (Lit hyphen) 0 1, Rep Digit 4 4, Eol] (0 + length a, t1))"
    unfolding steps_Rep[of st' nd Digit 2 4] by blast
  from 1 obtain h1 t2 where h1: "t1 = h1 @ t2" "length h1 \<le> 1"
      "list_all (in_class nd (Lit hyphen)) h1"
      and 2: "st' \<in> set (regex_steps nd [Rep Digit 3 4,
       Rep (Lit hyphen) 0 1, Rep Digit 4 4, Eol] (0 + length a + length h1, t2))"
    unfolding steps_Rep[of st' nd "Lit hyphen" 0 1] by blast
  from 2 obtain b t3 where b: "t2 = b @ t3" "3 \<le> length b" "length b \<le> 4"
      "list_all (in_class nd Digit) b"
      and 3: "st' \<in> set (regex_steps nd [Rep (Lit hyphen) 0 1, Rep Digit 4 4, Eol]
        (0 + length a + length h1 + length b, t3))"
    unfolding steps_Rep[of st' nd Digit 3 4] by blast
  from 3 obtain h2 t4 where h2: "t3 = h2 @ t4" "length h2 \<le> 1"
      "list_all (in_class nd (Lit hyphen)) h2"
      and 4: "st' \<in> set (regex_steps nd [Rep Digit 4 4, Eol]
        (0 + length a + length h1 + length b + length h2, t4))"
    unfolding steps_Rep[of st' nd "Lit hyphen" 0 1] by blast
  from 4 obtain c t5 where c: "t4 = c @ t5" "4 \<le> length c" "length c \<le> 4"
      "list_all (in_class nd Digit) c"
      and 5: "st' \<in> set (regex_steps nd [Eol]
        (0 + length a + length h1 + length b + length h2 + length c, t5))"
    unfolding steps_Rep[of st' nd Digit 4 4] by blast
  from 5 have t5: "t5 = []"
    unfolding steps_Eol by simp
  have s: "s = a @ h1 @ b @ h2 @ c"
    by (simp add: a(1) h1(1) b(1) h2(1) c(1) t5)
  have hs: "h1 = [] \<or> h1 = [hyphen]" "h2 = [] \<or> h2 = [hyphen]"
    using opt_lit_iff[of h1 nd hyphen] opt_lit_iff[of h2 nd hyphen] h1(2,3) h2(2,3) by blast+
  have ds: "list_all (is_digit nd) a" "list_all (is_digit nd) b" "list_all (is_digit nd) c"
    using a(4) b(4) c(4) by (simp_all add: list_all_iff)
  have "length c = 4" using c(2,3) by simp
  with s hs ds a(2,3) b(2,3) show ?thesis
    unfolding phone_shape_def by blast
qed

lemma nonempty_has_member: "xs \<noteq> [] \<Longrightarrow> \<exists>x. x \<in> set xs"
  by (cases xs) auto

lemma steps_RepI:
  assumes "m \<le> length u" "length u \<le> n" "list_all (in_class nd c) u"
    and "st' \<in> set (regex_steps nd rs (i + length u, t))"
  shows "st' \<in> set (regex_steps nd (Rep c m n # rs) (i, u @ t))"
  unfolding steps_Rep using assms by blast

lemma shape_phone_steps:
  assumes "phone_shape nd s"
  shows "regex_steps nd [Rep Digit 2 4, Rep (Lit hyphen) 0 1, Rep Digit 3 4,
       Rep (Lit hyphen) 0 1, Rep Digit 4 4, Eol] (0, s) \<noteq> []"
proof -
  from assms obtain a h1 b h2 c where *:
    "s = a @ h1 @ b @ h2 @ c"
    "list_all (is_digit nd) a" "2 \<le> length a" "length a \<le> 4"
    "h1 = [] \<or> h1 = [hyphen]"
    "list_all (is_digit nd) b" "3 \<le> length b" "length b \<le> 4"
    "h2 = [] \<or> h2 = [hyphen]"
    "list_all (is_digit nd) c" "length c = 4"
    unfolding phone_shape_def by blast
  have h: "0 \<le> length h1" "length h1 \<le> 1" "list_all (in_class nd (Lit hyphen)) h1"
      "0 \<le> length h2" "length h2 \<le> 1" "list_all (in_class nd (Lit hyphen)) h2"
    using *(5,9) by auto
  have d: "list_all (in_class nd Digit) a" "list_all (in_class nd Digit) b" "list_all (in_class nd Digit) c"
    using *(2,6,10) by (simp_all add: list_all_iff)
  have c4: "4 \<le> length c" "length c \<le> 4"
    using *(11) by simp_all
  define st' where "st' = (0 + length a + length h1 + length b + length h2 + length c, [] :: str)"
  have "st' \<in> set (regex_steps nd [Eol]
      (0 + length a + length h1 + length b + length h2 + length c, []))"
    by (simp add: st'_def)
  note steps_RepI[OF c4 d(3) this]
  note steps_RepI[OF h(4,5,6) this]
  note steps_RepI[OF *(7,8) d(2) this]
  note steps_RepI[OF h(1,2,3) this]
  note steps_RepI[OF *(3,4) d(1) this]
  then have "st' \<in> set (regex_steps nd [Rep Digit 2 4, Rep (Lit hyphen) 0 1, Rep Digit 3 4,
       Rep (Lit hyphen) 0 1, Rep Digit 4 4, Eol] (0, s))"
    by (simp only: *(1) append_Nil2)
  then show ?thesis
    by (metis empty_iff empty_set)
qed

lemma is_match_phone_shape: "is_match nd PHONE_NUMBER_REGEX s \<longleftrightarrow> phone_shape nd s"
proof
  assume "is_match nd PHONE_NUMBER_REGEX s"
  then have "regex_steps nd [Rep Digit 2 4, Rep (Lit hyphen) 0 1, Rep Digit 3 4,
       Rep (Lit hyphen) 0 1, Rep Digit 4 4, Eol] (0, s) \<noteq> []"
    unfolding PHONE_NUMBER_REGEX_def is_match_iff_start .
  then obtain st' where "st' \<in> set (regex_steps nd [Rep Digit 2 4, Rep (Lit hyphen) 0 1,
       Rep Digit 3 4, Rep (Lit hyphen) 0 1, Rep Digit 4 4, Eol] (0, s))"
    using nonempty_has_member by blast
  then show "phone_shape nd s"
    by (rule phone_steps_shape)
next
  assume "phone_shape nd s"
  then have "regex_steps nd [Rep Digit 2 4, Rep (Lit hyphen) 0 1, Rep Digit 3 4,
       Rep (Lit hyphen) 0 1, Rep Digit 4 4, Eol] (0, s) \<noteq> []"
    by (rule shape_phone_steps)
  then show "is_match nd PHONE_NUMBER_REGEX s"
    unfolding PHONE_NUMBER_REGEX_def is_match_iff_start .
qed

lemmas match_eval = is_match_def PHONE_NUMBER_REGEX_def ascii_def hyphen_def ascii_digit
  not_digit_45 upt_rec[of _ "Suc _"]

lemma match_010_1234_5678: "is_match nd PHONE_NUMBER_REGEX (ascii ''010-1234-5678'')"
  by (simp add: match_eval)

lemma match_01012345678: "is_match nd PHONE_NUMBER_REGEX (ascii ''01012345678'')"
  by (simp add: match_eval)

lemma no_match_010_1234_567: "\<not> is_match nd PHONE_NUMBER_REGEX (ascii ''010-1234-567'')"
  by (simp add: match_eval)

lemma no_match_0_101234_5678: "\<not> is_match nd PHONE_NUMBER_REGEX (ascii ''0-101234-5678'')"
  by (simp add: match_eval)

lemma is_digit_not_surrogate: "is_digit nd c \<Longrightarrow> \<not> is_surrogate c"
  by (auto simp: is_digit_def is_surrogate_def split: if_splits)

lemma digits_no_surrogate: "list_all (is_digit nd) a \<Longrightarrow> \<not> has_surrogate a"
  by (auto simp: has_surrogate_def list_all_iff list_ex_iff dest: is_digit_not_surrogate)

lemma opt_hyphen_no_surrogate: "h = [] \<or> h = [hyphen] \<Longrightarrow> \<not> has_surrogate h"
  by (auto simp: has_surrogate_def is_surrogate_def hyphen_def)

lemma has_surrogate_append: "has_surrogate (a @ b) \<longleftrightarrow> has_surrogate a \<or> has_surrogate b"
  by (auto simp: has_surrogate_def list_ex_iff)

lemma phone_shape_no_surrogate:
  assumes "phone_shape nd p"
  shows "\<not> has_surrogate p"
proof -
  from assms obtain a h1 b h2 c where *:
    "p = a @ h1 @ b @ h2 @ c"
    "list_all (is_digit nd) a" "h1 = [] \<or> h1 = [hyphen]"
    "list_all (is_digit nd) b" "h2 = [] \<or> h2 = [hyphen]"
    "list_all (is_digit nd) c"
    unfolding phone_shape_def by blast
  show ?thesis
    unfolding *(1) has_surrogate_append
    using digits_no_surrogate[OF *(2)] digits_no_surrogate[OF *(4)] digits_no_surrogate[OF *(6)]
      opt_hyphen_no_surrogate[OF *(3)] opt_hyphen_no_surrogate[OF *(5)]
    by blast
qed

lemma is_match_no_surrogate: "is_match nd PHONE_NUMBER_REGEX p \<Longrightarrow> \<not> has_surrogate p"
  by (rule phone_shape_no_surrogate[of nd]) (simp only: is_match_phone_shape)

lemma validate_phone_number_match:
  "is_match nd PHONE_NUMBER_REGEX p \<Longrightarrow>
     validate_phone_number nd p = Inr (filter (\<lambda>c. c \<noteq> hyphen) p)"
  by (simp add: validate_phone_number_def standardize_filter is_match_no_surrogate)

lemma validate_phone_number_no_match:
  "\<not> is_match nd PHONE_NUMBER_REGEX p \<Longrightarrow>
     validate_phone_number nd p =
       Inl [\<lparr>loc = [''phone_number''],
             type = (if has_surrogate p then string_unicode else string_pattern_mismatch),
             ctx = []\<rparr>]"
  by (simp add: validate_phone_number_def)

lemma validate_name_ok:
  "\<not> has_surrogate n \<Longrightarrow> 2 \<le> length n \<Longrightarrow> length n \<le> 50 \<Longrightarrow> validate_name n = Inr n"
  by (simp add: validate_name_def)

lemma ascii_Alice: "ascii ''Alice'' = [65, 108, 105, 99, 101]"
  by (simp add: ascii_def)

lemma ascii_A: "ascii ''A'' = [65]"
  by (simp add: ascii_def)

lemma ascii_A_space: "ascii ''A '' = [65, 32]"
  by (simp add: ascii_def)

lemma no_surrogate_Alice: "\<not> has_surrogate (ascii ''Alice'')"
  by (simp add: ascii_Alice has_surrogate_def is_surrogate_def)

lemma no_surrogate_A: "\<not> has_surrogate (ascii ''A'')"
  by (simp add: ascii_A has_surrogate_def is_surrogate_def)

lemma no_surrogate_A_space: "\<not> has_surrogate (ascii ''A '')"
  by (simp add: ascii_A_space has_surrogate_def is_surrogate_def)

lemma validate_name_Alice: "validate_name (ascii ''Alice'') = Inr (ascii ''Alice'')"
  by (rule validate_name_ok[OF no_surrogate_Alice]) (simp_all add: ascii_Alice)

lemma filter_010_1234_5678:
  "filter (\<lambda>c. c \<noteq> hyphen) (ascii ''010-1234-5678'') = ascii ''01012345678''"
  by (simp add: ascii_def hyphen_def)

lemma filter_0_101234_5678:
  "filter (\<lambda>c. c \<noteq> hyphen) (ascii ''0-101234-5678'') = ascii ''01012345678''"
  by (simp add: ascii_def hyphen_def)

lemma filter_digits:
  "list_all (is_digit nd) a \<Longrightarrow> filter (\<lambda>c. c \<noteq> hyphen) a = a"
  using not_digit_hyphen[of nd] by (induction a) auto

lemma filter_opt_hyphen:
  "h = [] \<or> h = [hyphen] \<Longrightarrow> filter (\<lambda>c. c \<noteq> hyphen) h = []"
  by auto

lemma phone_shape_filter:
  assumes "phone_shape nd p"
  shows "\<exists>a b c. filter (\<lambda>c. c \<noteq> hyphen) p = a @ b @ c
    \<and> list_all (is_digit nd) a \<and> 2 \<le> length a \<and> length a \<le> 4
    \<and> list_all (is_digit nd) b \<and> 3 \<le> length b \<and> length b \<le> 4
    \<and> list_all (is_digit nd) c \<and> length c = 4"
proof -
  from assms obtain a h1 b h2 c where *:
    "p = a @ h1 @ b @ h2 @ c"
    "list_all (is_digit nd) a" "2 \<le> length a" "length a \<le> 4"
    "h1 = [] \<or> h1 = [hyphen]"
    "list_all (is_digit nd) b" "3 \<le> length b" "length b \<le> 4"
    "h2 = [] \<or> h2 = [hyphen]"
    "list_all (is_digit nd) c" "length c = 4"
    unfolding phone_shape_def by blast
  have "filter (\<lambda>c. c \<noteq> hyphen) p = a @ b @ c"
    unfolding *(1) filter_append
    by (simp only: filter_digits[OF *(2)] filter_digits[OF *(6)] filter_digits[OF *(10)]
        filter_opt_hyphen[OF *(5)] filter_opt_hyphen[OF *(9)] append_Nil)
  with *(2,3,4,6,7,8,10,11) show ?thesis
    by blast
qed

lemma UserCreate_init_InrD:
  assumes "UserCreate_init nd p n = Inr u"
  shows "is_match nd PHONE_NUMBER_REGEX p \<and> \<not> has_surrogate n
    \<and> 2 \<le> length n \<and> length n \<le> 50
    \<and> phone_number u = filter (\<lambda>c. c \<noteq> hyphen) p \<and> name u = n"
  using assms
  by (auto simp: UserCreate_init_def validate_phone_number_def validate_name_def
      standardize_filter split: if_splits sum.splits)

lemma UserCreate_init_Inr:
  "is_match nd PHONE_NUMBER_REGEX p \<Longrightarrow> \<not> has_surrogate n \<Longrightarrow> 2 \<le> length n \<Longrightarrow>
     length n \<le> 50 \<Longrightarrow>
     UserCreate_init nd p n = Inr \<lparr>phone_number = filter (\<lambda>c. c \<noteq> hyphen) p, name = n\<rparr>"
  by (simp add: UserCreate_init_def validate_phone_number_match validate_name_ok)

lemma UserCreate_init_Alice:
  "UserCreate_init nd (ascii ''010-1234-5678'') (ascii ''Alice'')
     = Inr \<lparr>phone_number = ascii ''01012345678'', name = ascii ''Alice''\<rparr>"
  using UserCreate_init_Inr[OF match_010_1234_5678 no_surrogate_Alice, of nd]
  by (simp add: filter_010_1234_5678 ascii_Alice)

lemma unicode_error_name:
  "has_surrogate n \<Longrightarrow>
     validate_name n = Inl [\<lparr>loc = [''name''], type = string_unicode, ctx = []\<rparr>]"
  by (simp add: validate_name_def)

lemma surrogate_55296: "is_surrogate 55296"
  by (simp add: is_surrogate_def)

lemma no_surrogate_010_1234_567: "\<not> has_surrogate (ascii ''010-1234-567'')"
  by (simp add: ascii_def has_surrogate_def is_surrogate_def)

lemma no_match_surrogate: "\<not> is_match nd PHONE_NUMBER_REGEX [55296]"
  using is_match_no_surrogate[of nd "[55296]"]
  by (auto simp: has_surrogate_def is_surrogate_def)

section \<open>Normalisation\<close>

text \<open>
  C6. Removing the hyphens is idempotent: a string without a hyphen is returned as it
  is, and normalising any string twice gives what normalising it once gives.
\<close>

theorem standardize_idempotent:
  "(hyphen \<notin> set s \<longrightarrow> standardize_phone_number s = s)
   \<and> standardize_phone_number (standardize_phone_number s) = standardize_phone_number s"
proof
  show "hyphen \<notin> set s \<longrightarrow> standardize_phone_number s = s"
    unfolding standardize_filter by (induction s) auto
  show "standardize_phone_number (standardize_phone_number s) = standardize_phone_number s"
    unfolding standardize_filter by simp
qed

theorem standardize_idempotent_witness:
  "hyphen \<notin> set (ascii ''01012345678'')
   \<and> standardize_phone_number (ascii ''01012345678'') = ascii ''01012345678''
   \<and> standardize_phone_number (standardize_phone_number (ascii ''01012345678''))
       = standardize_phone_number (ascii ''01012345678'')"
proof -
  have h: "hyphen \<notin> set (ascii ''01012345678'')"
    by (simp add: ascii_01012345678 hyphen_def)
  show ?thesis
    using h standardize_idempotent [of "ascii ''01012345678''"] by simp
qed

section \<open>Validation\<close>

text \<open>
  C1, as amended. When the phone number matches the pattern and the name is valid Unicode
  (it has no lone surrogate) and has 2 to 50 characters, validation succeeds; the phone
  number of the result is the submitted one without its hyphens, so it has no hyphen.
\<close>

theorem validate_accepts_matching_phone:
  assumes "is_match nd PHONE_NUMBER_REGEX p" and "\<not> has_surrogate n"
    and "2 \<le> length n" and "length n \<le> 50"
  shows "UserCreate_init nd p n = Inr \<lparr>phone_number = filter (\<lambda>c. c \<noteq> hyphen) p, name = n\<rparr>
    \<and> hyphen \<notin> set (filter (\<lambda>c. c \<noteq> hyphen) p)"
  using assms
  by (simp add: UserCreate_init_def validate_phone_number_match validate_name_ok)

theorem validate_accepts_matching_phone_witness:
  "is_match no_other_digits PHONE_NUMBER_REGEX (ascii ''010-1234-5678'')
   \<and> \<not> has_surrogate (ascii ''Alice'')
   \<and> 2 \<le> length (ascii ''Alice'') \<and> length (ascii ''Alice'') \<le> 50
   \<and> UserCreate_init no_other_digits (ascii ''010-1234-5678'') (ascii ''Alice'')
       = Inr \<lparr>phone_number = ascii ''01012345678'', name = ascii ''Alice''\<rparr>
   \<and> hyphen \<notin> set (ascii ''01012345678'')"
proof -
  have m: "is_match no_other_digits PHONE_NUMBER_REGEX (ascii ''010-1234-5678'')"
    by (rule match_010_1234_5678)
  have n: "2 \<le> length (ascii ''Alice'')" "length (ascii ''Alice'') \<le> 50"
    by (simp_all add: ascii_Alice)
  show ?thesis
    using validate_accepts_matching_phone [OF m no_surrogate_Alice n] m no_surrogate_Alice n
    by (simp only: filter_010_1234_5678 simp_thms)
qed

text \<open>
  C1 as it was stated, for every name of 2 to 50 characters, fails: a name of two lone
  surrogates has length 2 and is refused as invalid Unicode, with a matching phone number.
\<close>

theorem validate_accepts_matching_phone_counterexample:
  "is_match no_other_digits PHONE_NUMBER_REGEX (ascii ''010-1234-5678'')
   \<and> 2 \<le> length [55296, 55296 :: nat] \<and> length [55296, 55296 :: nat] \<le> 50
   \<and> UserCreate_init no_other_digits (ascii ''010-1234-5678'') [55296, 55296]
       = Inl [\<lparr>loc = [''name''], type = string_unicode, ctx = []\<rparr>]"
proof -
  have m: "is_match no_other_digits PHONE_NUMBER_REGEX (ascii ''010-1234-5678'')"
    by (rule match_010_1234_5678)
  have "has_surrogate [55296, 55296]"
    by (simp add: has_surrogate_def surrogate_55296)
  then have "UserCreate_init no_other_digits (ascii ''010-1234-5678'') [55296, 55296]
       = Inl [\<lparr>loc = [''name''], type = string_unicode, ctx = []\<rparr>]"
    by (simp add: UserCreate_init_def validate_phone_number_match[OF m] unicode_error_name)
  with m show ?thesis
    by simp
qed

text \<open>
  C2, as amended. When the phone number does not match the pattern, validation fails
  whatever the name is, and the first error it reports is one of field
  \<open>phone_number\<close>: the pattern mismatch when the phone number is valid Unicode, the
  Unicode error when it holds a lone surrogate. The errors of the name, if any, follow.
  For \<open>010-1234-567\<close> and Alice it is the pattern mismatch.
\<close>

theorem validate_rejects_other_phone:
  assumes "\<not> is_match nd PHONE_NUMBER_REGEX p"
  shows "UserCreate_init nd p n =
    Inl (\<lparr>loc = [''phone_number''],
          type = (if has_surrogate p then string_unicode else string_pattern_mismatch),
          ctx = []\<rparr>
           # errors_of (validate_name n))"
  by (simp add: UserCreate_init_def validate_phone_number_no_match[OF assms] split: sum.splits)

theorem validate_rejects_other_phone_witness:
  "\<not> is_match no_other_digits PHONE_NUMBER_REGEX (ascii ''010-1234-567'')
   \<and> UserCreate_init no_other_digits (ascii ''010-1234-567'') (ascii ''Alice'') =
       Inl [\<lparr>loc = [''phone_number''], type = string_pattern_mismatch, ctx = []\<rparr>]"
proof -
  have m: "\<not> is_match no_other_digits PHONE_NUMBER_REGEX (ascii ''010-1234-567'')"
    by (rule no_match_010_1234_567)
  show ?thesis
    using validate_rejects_other_phone [OF m, of "ascii ''Alice''"] m
    by (simp add: validate_name_Alice no_surrogate_010_1234_567)
qed

text \<open>
  C2 as it was stated, the pattern mismatch for every phone number that does not match,
  fails: a phone number that is a lone surrogate does not match and gets the Unicode
  error.
\<close>

theorem validate_rejects_other_phone_counterexample:
  "\<not> is_match no_other_digits PHONE_NUMBER_REGEX [55296]
   \<and> UserCreate_init no_other_digits [55296] (ascii ''Alice'') =
       Inl [\<lparr>loc = [''phone_number''], type = string_unicode, ctx = []\<rparr>]"
proof -
  have "has_surrogate [55296]"
    by (simp add: has_surrogate_def surrogate_55296)
  then have "UserCreate_init no_other_digits [55296] (ascii ''Alice'') =
       Inl [\<lparr>loc = [''phone_number''], type = string_unicode, ctx = []\<rparr>]"
    by (simp add: UserCreate_init_def validate_phone_number_def validate_name_Alice)
  with no_match_surrogate[of no_other_digits] show ?thesis
    by simp
qed

text \<open>
  C3, as amended. When the name has fewer than 2 or more than 50 characters, validation
  fails whatever the phone number is, and reports an error of field \<open>name\<close>, after the
  error of the phone number if there is one. For a name that is valid Unicode the error is
  too short, with the minimum 2, for 0 or 1 characters, and too long, with the maximum 50,
  otherwise. For a name with a lone surrogate it is the Unicode error. For
  \<open>010-1234-5678\<close> and the name A it is too short, with the minimum 2.
\<close>

theorem validate_rejects_name_length:
  assumes "length n < 2 \<or> 50 < length n"
  shows "UserCreate_init nd p n =
    Inl (errors_of (validate_phone_number nd p) @
      [if has_surrogate n
         then \<lparr>loc = [''name''], type = string_unicode, ctx = []\<rparr>
       else if length n < 2
         then \<lparr>loc = [''name''], type = string_too_short, ctx = [(''min_length'', 2)]\<rparr>
       else \<lparr>loc = [''name''], type = string_too_long, ctx = [(''max_length'', 50)]\<rparr>])"
  using assms
  by (auto simp: UserCreate_init_def validate_name_def split: sum.splits)

theorem validate_rejects_name_length_witness:
  "(length (ascii ''A'') < 2 \<or> 50 < length (ascii ''A''))
   \<and> UserCreate_init no_other_digits (ascii ''010-1234-5678'') (ascii ''A'') =
       Inl [\<lparr>loc = [''name''], type = string_too_short, ctx = [(''min_length'', 2)]\<rparr>]"
proof -
  have h: "length (ascii ''A'') < 2 \<or> 50 < length (ascii ''A'')"
    by (simp add: ascii_A)
  have "errors_of (validate_phone_number no_other_digits (ascii ''010-1234-5678'')) = []"
    by (simp add: validate_phone_number_match match_010_1234_5678)
  then show ?thesis
    using validate_rejects_name_length [OF h, of no_other_digits "ascii ''010-1234-5678''"]
      no_surrogate_A
    by (simp add: ascii_A)
qed

text \<open>
  C3 as it was stated, too short for every name of 0 or 1 characters, fails: the name
  that is one lone surrogate has length 1 and gets the Unicode error.
\<close>

theorem validate_rejects_name_length_counterexample:
  "(length [55296 :: nat] < 2 \<or> 50 < length [55296 :: nat])
   \<and> UserCreate_init no_other_digits (ascii ''010-1234-5678'') [55296] =
       Inl [\<lparr>loc = [''name''], type = string_unicode, ctx = []\<rparr>]"
proof -
  have m: "is_match no_other_digits PHONE_NUMBER_REGEX (ascii ''010-1234-5678'')"
    by (rule match_010_1234_5678)
  have "has_surrogate [55296]"
    by (simp add: has_surrogate_def surrogate_55296)
  then show ?thesis
    by (simp add: UserCreate_init_def validate_phone_number_match[OF m] unicode_error_name)
qed

text \<open>
  C4. The record of a successful validation has a phone number made of digits only, with no
  hyphen, of 9 to 12 characters: a group of 2 to 4, a group of 3 or 4 and a group of 4.
  Its name has 2 to 50 characters. A digit is what \<open>\d\<close> accepts.
\<close>

theorem normalized_user_invariant:
  assumes "UserCreate_init nd p n = Inr u"
  shows "list_all (is_digit nd) (phone_number u) \<and> hyphen \<notin> set (phone_number u)
    \<and> 9 \<le> length (phone_number u) \<and> length (phone_number u) \<le> 12
    \<and> (\<exists>a b c. phone_number u = a @ b @ c \<and> 2 \<le> length a \<and> length a \<le> 4
          \<and> 3 \<le> length b \<and> length b \<le> 4 \<and> length c = 4)
    \<and> 2 \<le> length (name u) \<and> length (name u) \<le> 50"
proof -
  from UserCreate_init_InrD[OF assms]
  have m: "is_match nd PHONE_NUMBER_REGEX p" and n: "2 \<le> length n" "length n \<le> 50"
    and u: "phone_number u = filter (\<lambda>c. c \<noteq> hyphen) p" "name u = n"
    by simp_all
  from m have "phone_shape nd p"
    by (simp only: is_match_phone_shape)
  from phone_shape_filter[OF this] obtain a b c where *:
    "phone_number u = a @ b @ c"
    "list_all (is_digit nd) a" "2 \<le> length a" "length a \<le> 4"
    "list_all (is_digit nd) b" "3 \<le> length b" "length b \<le> 4"
    "list_all (is_digit nd) c" "length c = 4"
    unfolding u(1) by blast
  have d: "list_all (is_digit nd) (phone_number u)"
    using *(2,5,8) by (simp add: *(1))
  have l: "9 \<le> length (phone_number u)" "length (phone_number u) \<le> 12"
    using *(3,4,6,7,9) by (simp_all add: *(1))
  have h: "hyphen \<notin> set (phone_number u)"
    by (simp add: u(1))
  have "\<exists>a b c. phone_number u = a @ b @ c \<and> 2 \<le> length a \<and> length a \<le> 4
          \<and> 3 \<le> length b \<and> length b \<le> 4 \<and> length c = 4"
    using *(1,3,4,6,7,9) by blast
  with d h l n show ?thesis
    by (simp only: u(2) simp_thms)
qed

theorem normalized_user_invariant_witness:
  "UserCreate_init no_other_digits (ascii ''010-1234-5678'') (ascii ''Alice'')
     = Inr \<lparr>phone_number = ascii ''01012345678'', name = ascii ''Alice''\<rparr>
   \<and> list_all (is_digit no_other_digits) (ascii ''01012345678'')
   \<and> hyphen \<notin> set (ascii ''01012345678'')
   \<and> 9 \<le> length (ascii ''01012345678'') \<and> length (ascii ''01012345678'') \<le> 12
   \<and> 2 \<le> length (ascii ''Alice'') \<and> length (ascii ''Alice'') \<le> 50"
  using normalized_user_invariant [OF UserCreate_init_Alice [of no_other_digits]]
    UserCreate_init_Alice [of no_other_digits]
  by simp

text \<open>
  C5. The phone number \<open>010-1234-5678\<close> with the three-character name of the documented
  example (code points U+D64D, U+AE38, U+B3D9) is accepted; the result has the phone number
  \<open>01012345678\<close> and the name as submitted.
\<close>

theorem validate_example_hong_gildong:
  "UserCreate_init nd (ascii ''010-1234-5678'') [54861, 44600, 46041]
     = Inr \<lparr>phone_number = ascii ''01012345678'', name = [54861, 44600, 46041]\<rparr>"
proof -
  have "\<not> has_surrogate [54861, 44600, 46041]"
    by (simp add: has_surrogate_def is_surrogate_def)
  from UserCreate_init_Inr[OF match_010_1234_5678 this, of nd] show ?thesis
    by (simp add: filter_010_1234_5678)
qed

text \<open>
  C7, as amended. The length of the name is that of the submitted string; nothing is
  trimmed, and the name comes back as submitted. A name that is valid Unicode and has 2 to
  50 characters is accepted whatever the characters are, white space too: the letter A
  followed by a space is accepted.
\<close>

theorem name_length_checked_untrimmed:
  assumes "is_match nd PHONE_NUMBER_REGEX p" and "\<not> has_surrogate n"
    and "2 \<le> length n" and "length n \<le> 50"
  shows "\<exists>u. UserCreate_init nd p n = Inr u \<and> name u = n"
  using UserCreate_init_Inr[OF assms] by simp

theorem name_length_checked_untrimmed_witness:
  "is_match no_other_digits PHONE_NUMBER_REGEX (ascii ''010-1234-5678'')
   \<and> \<not> has_surrogate (ascii ''A '')
   \<and> 2 \<le> length (ascii ''A '') \<and> length (ascii ''A '') \<le> 50
   \<and> (\<exists>u. UserCreate_init no_other_digits (ascii ''010-1234-5678'') (ascii ''A '') = Inr u
          \<and> name u = ascii ''A '')"
proof -
  have m: "is_match no_other_digits PHONE_NUMBER_REGEX (ascii ''010-1234-5678'')"
    by (rule match_010_1234_5678)
  have n: "2 \<le> length (ascii ''A '')" "length (ascii ''A '') \<le> 50"
    by (simp_all add: ascii_A_space)
  show ?thesis
    using name_length_checked_untrimmed [OF m no_surrogate_A_space n] m no_surrogate_A_space n
    by blast
qed

text \<open>
  C7 as it was stated, for every name of raw length 2 to 50, fails: the letter A followed
  by a lone surrogate has raw length 2 and is refused as invalid Unicode.
\<close>

theorem name_length_checked_untrimmed_counterexample:
  "is_match no_other_digits PHONE_NUMBER_REGEX (ascii ''010-1234-5678'')
   \<and> 2 \<le> length [65, 55296 :: nat] \<and> length [65, 55296 :: nat] \<le> 50
   \<and> UserCreate_init no_other_digits (ascii ''010-1234-5678'') [65, 55296]
       = Inl [\<lparr>loc = [''name''], type = string_unicode, ctx = []\<rparr>]"
proof -
  have m: "is_match no_other_digits PHONE_NUMBER_REGEX (ascii ''010-1234-5678'')"
    by (rule match_010_1234_5678)
  have "has_surrogate [65, 55296]"
    by (simp add: has_surrogate_def surrogate_55296)
  then have "UserCreate_init no_other_digits (ascii ''010-1234-5678'') [65, 55296]
       = Inl [\<lparr>loc = [''name''], type = string_unicode, ctx = []\<rparr>]"
    by (simp add: UserCreate_init_def validate_phone_number_match[OF m] unicode_error_name)
  with m show ?thesis
    by simp
qed

section \<open>The first error\<close>

text \<open>
  C8. When the phone number does not match and the length of the name is out of bounds,
  the errors are the one of the phone number and then the one of the name, and the form
  handler, which reads the first error only, answers with the message about the phone
  number.
\<close>

theorem both_invalid_phone_error_first:
  assumes "\<not> is_match nd PHONE_NUMBER_REGEX p" and "length n < 2 \<or> 50 < length n"
  shows "\<exists>e. UserCreate_init nd p n =
        Inl [\<lparr>loc = [''phone_number''],
              type = (if has_surrogate p then string_unicode else string_pattern_mismatch),
              ctx = []\<rparr>, e]
      \<and> loc e = [''name'']
      \<and> handle_registration_form nd p n = Template_422 Phone_number_format p n"
  using assms
  by (auto simp: handle_registration_form_def error_message_of_def UserCreate_init_def
      validate_phone_number_no_match validate_name_def)

theorem both_invalid_phone_error_first_witness:
  "\<not> is_match no_other_digits PHONE_NUMBER_REGEX (ascii ''010-1234-567'')
   \<and> (length (ascii ''A'') < 2 \<or> 50 < length (ascii ''A''))
   \<and> (\<exists>e. UserCreate_init no_other_digits (ascii ''010-1234-567'') (ascii ''A'') =
        Inl [\<lparr>loc = [''phone_number''], type = string_pattern_mismatch, ctx = []\<rparr>, e]
      \<and> loc e = [''name'']
      \<and> handle_registration_form no_other_digits (ascii ''010-1234-567'') (ascii ''A'')
          = Template_422 Phone_number_format (ascii ''010-1234-567'') (ascii ''A''))"
proof -
  have m: "\<not> is_match no_other_digits PHONE_NUMBER_REGEX (ascii ''010-1234-567'')"
    by (rule no_match_010_1234_567)
  have n: "length (ascii ''A'') < 2 \<or> 50 < length (ascii ''A'')"
    by (simp add: ascii_A)
  show ?thesis
    using both_invalid_phone_error_first [OF m n] m n no_surrogate_010_1234_567
    by simp
qed

section \<open>The pattern sees the hyphens\<close>

text \<open>
  C10. The pattern is checked before the hyphens are removed: \<open>0-101234-5678\<close> is
  rejected with the error of the phone number, while its digits \<open>01012345678\<close> alone
  are accepted.
\<close>

theorem hyphen_placement_matters:
  "filter (\<lambda>c. c \<noteq> hyphen) (ascii ''0-101234-5678'') = ascii ''01012345678''
   \<and> UserCreate_init nd (ascii ''01012345678'') (ascii ''Alice'')
       = Inr \<lparr>phone_number = ascii ''01012345678'', name = ascii ''Alice''\<rparr>
   \<and> UserCreate_init nd (ascii ''0-101234-5678'') (ascii ''Alice'')
       = Inl [\<lparr>loc = [''phone_number''], type = string_pattern_mismatch, ctx = []\<rparr>]"
proof -
  have 1: "UserCreate_init nd (ascii ''01012345678'') (ascii ''Alice'')
       = Inr \<lparr>phone_number = ascii ''01012345678'', name = ascii ''Alice''\<rparr>"
    using UserCreate_init_Inr[OF match_01012345678 no_surrogate_Alice, of nd]
    by (simp add: ascii_Alice ascii_01012345678 hyphen_def)
  have "\<not> has_surrogate (ascii ''0-101234-5678'')"
    by (simp add: ascii_def has_surrogate_def is_surrogate_def)
  then have 2: "UserCreate_init nd (ascii ''0-101234-5678'') (ascii ''Alice'')
       = Inl [\<lparr>loc = [''phone_number''], type = string_pattern_mismatch, ctx = []\<rparr>]"
    by (simp add: UserCreate_init_def validate_name_Alice
        validate_phone_number_no_match[OF no_match_0_101234_5678])
  from filter_0_101234_5678 1 2 show ?thesis
    by (simp only: simp_thms)
qed

end
